theory Spec2Isabelle
  imports Main
begin

section \<open>Strings as the converter sees them\<close>

text \<open>
  The converter \<^verbatim>\<open>convert_md.py\<close> works on Python \<^verbatim>\<open>str\<close> values. A line is modelled
  as a \<^typ>\<open>string\<close>, one \<^typ>\<open>char\<close> per code point, so the model covers text whose code
  points lie below 256. The library functions the source calls are written out below with
  the behaviour Python documents for them.
\<close>

text \<open>\<^verbatim>\<open>str.isspace\<close> on one code point below 256: TAB..CR, FS..US, space, NEL, NBSP.\<close>

definition is_space :: "char \<Rightarrow> bool" where
  "is_space c =
     (let n = (of_char c :: nat)
      in (9 \<le> n \<and> n \<le> 13) \<or> (28 \<le> n \<and> n \<le> 32) \<or> n = 133 \<or> n = 160)"

text \<open>\<^verbatim>\<open>s.lstrip(chars)\<close>, \<^verbatim>\<open>s.rstrip(chars)\<close>, \<^verbatim>\<open>s.strip(chars)\<close> for a predicate on characters:
  every leading (trailing) character that satisfies it is removed, not only the first.\<close>

definition lstrip_by :: "(char \<Rightarrow> bool) \<Rightarrow> string \<Rightarrow> string" where
  "lstrip_by p s = dropWhile p s"

definition rstrip_by :: "(char \<Rightarrow> bool) \<Rightarrow> string \<Rightarrow> string" where
  "rstrip_by p s = rev (dropWhile p (rev s))"

definition strip_by :: "(char \<Rightarrow> bool) \<Rightarrow> string \<Rightarrow> string" where
  "strip_by p s = rstrip_by p (lstrip_by p s)"

text \<open>\<^verbatim>\<open>s.strip()\<close>\<close>

definition py_strip :: "string \<Rightarrow> string" where
  "py_strip s = strip_by is_space s"

text \<open>\<^verbatim>\<open>s.strip("|")\<close>\<close>

definition strip_bar :: "string \<Rightarrow> string" where
  "strip_bar s = strip_by (\<lambda>c. c = CHR ''|'') s"

text \<open>\<^verbatim>\<open>s.startswith(p)\<close>\<close>

definition startswith :: "string \<Rightarrow> string \<Rightarrow> bool" where
  "startswith s p = (take (length p) s = p)"

text \<open>\<^verbatim>\<open>p in s\<close> for strings: \<^verbatim>\<open>p\<close> occurs in \<^verbatim>\<open>s\<close> as a contiguous run.\<close>

fun contains :: "string \<Rightarrow> string \<Rightarrow> bool" where
  "contains [] p = (p = [])"
| "contains (c # cs) p = (startswith (c # cs) p \<or> contains cs p)"

text \<open>\<^verbatim>\<open>s.split("|")\<close>: the pieces between the separators; always at least one piece.\<close>

fun split_bar :: "string \<Rightarrow> string list" where
  "split_bar [] = [[]]"
| "split_bar (c # cs) =
     (if c = CHR ''|'' then [] # split_bar cs
      else (case split_bar cs of
              [] \<Rightarrow> [[c]]
            | w # ws \<Rightarrow> (c # w) # ws))"

text \<open>\<^verbatim>\<open>"\n".join(xs)\<close>\<close>

fun join_lines :: "string list \<Rightarrow> string" where
  "join_lines [] = []"
| "join_lines [x] = x"
| "join_lines (x # y # ys) = x @ [CHR 0x0A] @ join_lines (y # ys)"

text \<open>\<^verbatim>\<open>str(n)\<close> for a natural number, as the f-string \<^verbatim>\<open>{level}\<close> formats it.\<close>

definition digit_char :: "nat \<Rightarrow> char" where
  "digit_char d = char_of (48 + d)"

fun str_nat :: "nat \<Rightarrow> string" where
  "str_nat n = (if n < 10 then [digit_char n] else str_nat (n div 10) @ [digit_char (n mod 10)])"

declare str_nat.simps [simp del]

text \<open>\<^verbatim>\<open>html.escape(s)\<close> with its default \<^verbatim>\<open>quote=True\<close>: five replacements, the ampersand
  first.\<close>

definition replace_char :: "char \<Rightarrow> string \<Rightarrow> string \<Rightarrow> string" where
  "replace_char c r s = concat (map (\<lambda>x. if x = c then r else [x]) s)"

definition html_escape :: "string \<Rightarrow> string" where
  "html_escape s =
     replace_char (CHR 0x27) ''&#x27;''
       (replace_char (CHR 0x22) ''&quot;''
         (replace_char (CHR ''>'') ''&gt;''
           (replace_char (CHR ''<'') ''&lt;''
             (replace_char (CHR ''&'') ''&amp;'' s))))"


section \<open>The four substitutions of \<^verbatim>\<open>format_inline\<close>\<close>

text \<open>
  Each \<^verbatim>\<open>re.sub\<close> of the source scans the text from the left. At a position where the
  pattern matches, the match is replaced and the scan goes on behind it; elsewhere one
  character is copied. None of the four patterns matches the empty string.

  A matcher takes the text at the current position and returns what it captured together
  with the text behind the match.
\<close>

type_synonym 'a matcher = "string \<Rightarrow> ('a \<times> string) option"

text \<open>A literal piece of a pattern.\<close>

definition lit :: "string \<Rightarrow> unit matcher" where
  "lit d s = (if startswith s d then Some ((), drop (length d) s) else None)"

text \<open>
  The group \<^verbatim>\<open>(.*?)\<close> followed by the rest \<open>k\<close> of the pattern. The lazy star tries the rest
  first and takes one more character only when the rest fails; the dot does not match a
  line feed.
\<close>

fun lazy_dot :: "'a matcher \<Rightarrow> (string \<times> 'a) matcher" where
  "lazy_dot k [] =
     (case k [] of
        Some (a, r) \<Rightarrow> Some (([], a), r)
      | None \<Rightarrow> None)"
| "lazy_dot k (c # cs) =
     (case k (c # cs) of
        Some (a, r) \<Rightarrow> Some (([], a), r)
      | None \<Rightarrow>
          if c = CHR 0x0A then None
          else (case lazy_dot k cs of
                  Some ((g, a), r) \<Rightarrow> Some ((c # g, a), r)
                | None \<Rightarrow> None))"

text \<open>\<^verbatim>\<open>\*\*(.*?)\*\*\<close> at the current position: the group and the text behind the match.\<close>

definition match_bold :: "string \<Rightarrow> (string \<times> string) option" where
  "match_bold s =
     (if startswith s ''**''
      then (case lazy_dot (lit ''**'') (drop 2 s) of
              Some ((g, u), r) \<Rightarrow> Some (g, r)
            | None \<Rightarrow> None)
      else None)"

text \<open>\<^verbatim>\<open>(?<!\*)\*(?!\*)(.*?)\*\<close>: \<open>prev\<close> is the character before the current position in
  the text being scanned, if there is one.\<close>

definition match_italic :: "char option \<Rightarrow> string \<Rightarrow> (string \<times> string) option" where
  "match_italic prev s =
     (if startswith s ''*'' \<and> prev \<noteq> Some (CHR ''*'') \<and> \<not> startswith (drop 1 s) ''*''
      then (case lazy_dot (lit ''*'') (drop 1 s) of
              Some ((g, u), r) \<Rightarrow> Some (g, r)
            | None \<Rightarrow> None)
      else None)"

text \<open>\<^verbatim>\<open>`(.*?)`\<close>\<close>

definition match_code :: "string \<Rightarrow> (string \<times> string) option" where
  "match_code s =
     (if startswith s ''`''
      then (case lazy_dot (lit ''`'') (drop 1 s) of
              Some ((g, u), r) \<Rightarrow> Some (g, r)
            | None \<Rightarrow> None)
      else None)"

text \<open>\<^verbatim>\<open>\[(.*?)\]\((.*?)\)\<close>: the label, the target and the text behind the match.\<close>

definition link_tail :: "(string \<times> unit) matcher" where
  "link_tail s =
     (if startswith s ''](''
      then lazy_dot (lit '')'') (drop 2 s)
      else None)"

definition match_link :: "string \<Rightarrow> (string \<times> string \<times> string) option" where
  "match_link s =
     (if startswith s ''[''
      then (case lazy_dot link_tail (drop 1 s) of
              Some ((label, (target, u)), r) \<Rightarrow> Some (label, target, r)
            | None \<Rightarrow> None)
      else None)"

text \<open>A match never ends before the position where it began, and none is empty, so every
  scan below makes progress.\<close>

lemma startswith_length: "startswith s p \<Longrightarrow> length p \<le> length s"
proof -
  assume "startswith s p"
  then have "length (take (length p) s) = length p" by (simp add: startswith_def)
  then show ?thesis by simp
qed

lemma lit_length: "lit d s = Some (u, r) \<Longrightarrow> length r + length d = length s"
  using startswith_length [of s d] by (auto simp: lit_def split: if_splits)

lemma lit_le: "lit d t = Some (a, r) \<Longrightarrow> length r \<le> length t"
  using lit_length [of d t a r] by simp

lemma lazy_dot_length:
  assumes "\<And>t a r. k t = Some (a, r) \<Longrightarrow> length r \<le> length t"
  shows "lazy_dot k s = Some (ga, r) \<Longrightarrow> length r \<le> length s"
proof (induction s arbitrary: ga r)
  case Nil
  then obtain a where "k [] = Some (a, r)" by (auto split: option.splits)
  then show ?case using assms [of "[]" a r] by simp
next
  case (Cons c cs)
  show ?case
  proof (cases "k (c # cs)")
    case (Some ar)
    obtain a r' where ar: "ar = (a, r')" by (cases ar)
    with Some Cons.prems have "r' = r" by simp
    with Some ar assms [of "c # cs" a r'] show ?thesis by simp
  next
    case None
    then obtain g' a' where "lazy_dot k cs = Some ((g', a'), r)"
      using Cons.prems by (auto split: if_splits option.splits)
    then have "length r \<le> length cs" using Cons.IH by blast
    then show ?thesis by simp
  qed
qed

lemma lazy_lit_length:
  "lazy_dot (lit d) s = Some (ga, r) \<Longrightarrow> length r + length d \<le> length s"
proof (induction s arbitrary: ga r)
  case Nil
  then show ?case using lit_length [of d "[]"] by (auto split: option.splits)
next
  case (Cons c cs)
  show ?case
  proof (cases "lit d (c # cs)")
    case (Some ar)
    obtain a r' where ar: "ar = (a, r')" by (cases ar)
    with Some Cons.prems have "r' = r" by simp
    with Some ar lit_length [of d "c # cs" a r'] show ?thesis by simp
  next
    case None
    then obtain g' a' where "lazy_dot (lit d) cs = Some ((g', a'), r)"
      using Cons.prems by (auto split: if_splits option.splits)
    then have "length r + length d \<le> length cs" using Cons.IH by blast
    then show ?thesis by simp
  qed
qed

lemma match_bold_length: "match_bold s = Some (g, r) \<Longrightarrow> length r < length s"
proof -
  assume m: "match_bold s = Some (g, r)"
  then obtain u where "lazy_dot (lit ''**'') (drop 2 s) = Some ((g, u), r)"
    by (auto simp: match_bold_def split: if_splits option.splits)
  then have "length r + 2 \<le> length (drop 2 s)"
    using lazy_lit_length [of "''**''"] by fastforce
  then show ?thesis by simp
qed

lemma match_italic_length: "match_italic p s = Some (g, r) \<Longrightarrow> length r < length s"
proof -
  assume m: "match_italic p s = Some (g, r)"
  then obtain u where "lazy_dot (lit ''*'') (drop 1 s) = Some ((g, u), r)"
    by (auto simp: match_italic_def split: if_splits option.splits)
  then have "length r + 1 \<le> length (drop 1 s)"
    using lazy_lit_length [of "''*''"] by fastforce
  then show ?thesis by simp
qed

lemma match_code_length: "match_code s = Some (g, r) \<Longrightarrow> length r < length s"
proof -
  assume m: "match_code s = Some (g, r)"
  then obtain u where "lazy_dot (lit ''`'') (drop 1 s) = Some ((g, u), r)"
    by (auto simp: match_code_def split: if_splits option.splits)
  then have "length r + 1 \<le> length (drop 1 s)"
    using lazy_lit_length [of "''`''"] by fastforce
  then show ?thesis by simp
qed

lemma link_tail_le: "link_tail t = Some (a, r) \<Longrightarrow> length r \<le> length t"
proof -
  assume "link_tail t = Some (a, r)"
  then have "lazy_dot (lit '')'') (drop 2 t) = Some (a, r)"
    by (auto simp: link_tail_def split: if_splits)
  then have "length r + 1 \<le> length (drop 2 t)"
    using lazy_lit_length [of "'')''"] by fastforce
  then show ?thesis by simp
qed

lemma match_link_length: "match_link s = Some (l, t, r) \<Longrightarrow> length r < length s"
proof -
  assume m: "match_link s = Some (l, t, r)"
  then have sw: "startswith s ''[''"
    by (auto simp: match_link_def split: if_splits)
  from m obtain u where "lazy_dot link_tail (drop 1 s) = Some ((l, (t, u)), r)"
    by (auto simp: match_link_def split: if_splits option.splits)
  then have "length r \<le> length (drop 1 s)"
    using lazy_dot_length [of link_tail] link_tail_le by blast
  moreover have "1 \<le> length s" using startswith_length [OF sw] by simp
  ultimately show ?thesis by simp
qed

text \<open>\<^verbatim>\<open>re.sub(r'\*\*(.*?)\*\*', r'<strong>\1</strong>', text)\<close>\<close>

function sub_bold :: "string \<Rightarrow> string" where
  "sub_bold [] = []"
| "sub_bold (c # cs) =
     (case match_bold (c # cs) of
        Some (g, rest) \<Rightarrow> ''<strong>'' @ g @ ''</strong>'' @ sub_bold rest
      | None \<Rightarrow> c # sub_bold cs)"
  by pat_completeness auto
termination
  by (relation "measure length") (auto dest: match_bold_length)

text \<open>\<^verbatim>\<open>re.sub(r'(?<!\*)\*(?!\*)(.*?)\*', r'<em>\1</em>', text)\<close>; behind a match the
  character before the position is the asterisk that closed the match.\<close>

function sub_italic :: "char option \<Rightarrow> string \<Rightarrow> string" where
  "sub_italic prev [] = []"
| "sub_italic prev (c # cs) =
     (case match_italic prev (c # cs) of
        Some (g, rest) \<Rightarrow> ''<em>'' @ g @ ''</em>'' @ sub_italic (Some (CHR ''*'')) rest
      | None \<Rightarrow> c # sub_italic (Some c) cs)"
  by pat_completeness auto
termination
  by (relation "measure (\<lambda>(p, s). length s)") (auto dest: match_italic_length)

text \<open>\<^verbatim>\<open>re.sub(r'`(.*?)`', r'<code>\1</code>', text)\<close>\<close>

function sub_code :: "string \<Rightarrow> string" where
  "sub_code [] = []"
| "sub_code (c # cs) =
     (case match_code (c # cs) of
        Some (g, rest) \<Rightarrow> ''<code>'' @ g @ ''</code>'' @ sub_code rest
      | None \<Rightarrow> c # sub_code cs)"
  by pat_completeness auto
termination
  by (relation "measure length") (auto dest: match_code_length)

text \<open>\<^verbatim>\<open>re.sub(r'\[(.*?)\]\((.*?)\)', r'<a href="\2">\1</a>', text)\<close>\<close>

function sub_link :: "string \<Rightarrow> string" where
  "sub_link [] = []"
| "sub_link (c # cs) =
     (case match_link (c # cs) of
        Some (label, target, rest) \<Rightarrow>
          ''<a href='' @ [CHR 0x22] @ target @ [CHR 0x22] @ ''>'' @ label @ ''</a>'' @ sub_link rest
      | None \<Rightarrow> c # sub_link cs)"
  by pat_completeness auto
termination
  by (relation "measure length") (auto dest: match_link_length)

text \<open>\<^verbatim>\<open>format_inline\<close>: bold, italic, code, link, each on the result of the one before.\<close>

definition format_inline :: "string \<Rightarrow> string" where
  "format_inline text = sub_link (sub_code (sub_italic None (sub_bold text)))"


section \<open>\<^verbatim>\<open>render_table\<close>\<close>

text \<open>The only operation of the converter that can raise is an index into a list.\<close>

datatype error = IndexError

definition py_index :: "'a list \<Rightarrow> nat \<Rightarrow> error + 'a" where
  "py_index xs i = (if i < length xs then Inr (xs ! i) else Inl IndexError)"

text \<open>\<^verbatim>\<open>[c.strip() for c in header_row.strip("|").split("|")]\<close>\<close>

definition header_cols :: "string \<Rightarrow> string list" where
  "header_cols header_row = map py_strip (split_bar (strip_bar header_row))"

text \<open>\<^verbatim>\<open>[c.strip() for c in row.strip().strip("|").split("|")]\<close>\<close>

definition clean_cols :: "string \<Rightarrow> string list" where
  "clean_cols row = map py_strip (split_bar (strip_bar (py_strip row)))"

text \<open>The loop over the header cells: an empty cell is skipped by \<^verbatim>\<open>continue\<close>.\<close>

fun header_loop :: "string list \<Rightarrow> string list \<Rightarrow> string list" where
  "header_loop html_parts [] = html_parts"
| "header_loop html_parts (c # cols) =
     (if c = [] then header_loop html_parts cols
      else header_loop (html_parts @ [''<th>'' @ format_inline c @ ''</th>'']) cols)"

text \<open>The loop over \<^verbatim>\<open>clean_cols\<close>: every cell is appended.\<close>

fun cells_loop :: "string list \<Rightarrow> string list \<Rightarrow> string list" where
  "cells_loop html_parts [] = html_parts"
| "cells_loop html_parts (c # cols) =
     cells_loop (html_parts @ [''<td>'' @ format_inline c @ ''</td>'']) cols"

text \<open>
  The loop over \<^verbatim>\<open>rows[start_idx:]\<close>. In the source a first inner loop over \<^verbatim>\<open>cols\<close> only
  executes \<^verbatim>\<open>continue\<close> or \<^verbatim>\<open>pass\<close>; it changes nothing and has no counterpart here.
\<close>

fun rows_loop :: "string list \<Rightarrow> string list \<Rightarrow> string list" where
  "rows_loop html_parts [] = html_parts"
| "rows_loop html_parts (row # rows) =
     rows_loop (cells_loop (html_parts @ [''<tr>'']) (clean_cols row) @ [''</tr>'']) rows"

text \<open>\<^verbatim>\<open>start_idx\<close>: 2 when there is a second row and it contains \<^verbatim>\<open>---\<close>, else 1. The
  \<^verbatim>\<open>and\<close> of the source reads \<^verbatim>\<open>rows[1]\<close> only when the length test has passed.\<close>

definition start_idx :: "string list \<Rightarrow> error + nat" where
  "start_idx rows =
     (if length rows > 1
      then (case py_index rows 1 of
              Inl e \<Rightarrow> Inl e
            | Inr r \<Rightarrow> Inr (if contains r ''---'' then 2 else 1))
      else Inr 1)"

definition render_table :: "string list \<Rightarrow> error + string" where
  "render_table rows =
     (if rows = [] then Inr []
      else
        (case py_index rows 0 of
           Inl e \<Rightarrow> Inl e
         | Inr header_row \<Rightarrow>
             (let html_parts = header_loop ([''<table>''] @ [''<thead><tr>'']) (header_cols header_row)
                               @ [''</tr></thead>'']
              in (case start_idx rows of
                    Inl e \<Rightarrow> Inl e
                  | Inr i \<Rightarrow>
                      Inr (concat (rows_loop (html_parts @ [''<tbody>'']) (drop i rows)
                                   @ [''</tbody></table>'']))))))"


section \<open>The line scan of \<^verbatim>\<open>main\<close>\<close>

record state =
  out :: "string list"
  in_code_block :: bool
  code_lang :: string
  in_table :: bool
  in_list :: bool
  table_buffer :: "string list"

text \<open>The variables before the loop; \<open>header\<close> stands for the constant \<^verbatim>\<open>HTML_HEADER\<close>.\<close>

definition init_state :: "string \<Rightarrow> state" where
  "init_state header =
     \<lparr>out = [header], in_code_block = False, code_lang = [], in_table = False,
      in_list = False, table_buffer = []\<rparr>"

text \<open>A fence line: closes the code block when one is open, opens one otherwise. Neither
  branch touches \<^verbatim>\<open>in_table\<close>, \<^verbatim>\<open>in_list\<close> or \<^verbatim>\<open>table_buffer\<close>.\<close>

definition code_fence :: "state \<Rightarrow> string \<Rightarrow> state" where
  "code_fence s stripped =
     (if in_code_block s
      then s\<lparr>out := out s @ [''</code></pre>''], in_code_block := False\<rparr>
      else
        (let lang0 = py_strip (drop 3 stripped);
             lang = (if lang0 = [] then ''java'' else lang0)
         in s\<lparr>out := out s @ [''<pre><code class='' @ [CHR 0x22] @ ''language-'' @ lang
                               @ [CHR 0x22] @ ''>''],
               code_lang := lang, in_code_block := True\<rparr>))"

text \<open>A table row: buffered, after entering table mode when it was closed.\<close>

definition table_row :: "state \<Rightarrow> string \<Rightarrow> error + state" where
  "table_row s stripped =
     (if \<not> in_table s
      then
        (if table_buffer s \<noteq> []
         then (case render_table (table_buffer s) of
                 Inl e \<Rightarrow> Inl e
               | Inr t \<Rightarrow> Inr (s\<lparr>out := out s @ [t], table_buffer := [] @ [stripped],
                                in_table := True\<rparr>))
         else Inr (s\<lparr>in_table := True, table_buffer := table_buffer s @ [stripped]\<rparr>))
      else Inr (s\<lparr>table_buffer := table_buffer s @ [stripped]\<rparr>))"

text \<open>The \<^verbatim>\<open>else\<close> of the table test: an open table is rendered and closed.\<close>

definition leave_table :: "state \<Rightarrow> error + state" where
  "leave_table s =
     (if in_table s
      then (case render_table (table_buffer s) of
              Inl e \<Rightarrow> Inl e
            | Inr t \<Rightarrow> Inr (s\<lparr>out := out s @ [t], table_buffer := [], in_table := False\<rparr>))
      else Inr s)"

text \<open>A list item: opens the list when it was closed, then appends the item.\<close>

definition list_item :: "state \<Rightarrow> string \<Rightarrow> state" where
  "list_item s stripped =
     (let s1 = (if \<not> in_list s then s\<lparr>out := out s @ [''<ul>''], in_list := True\<rparr> else s)
      in s1\<lparr>out := out s1 @ [''<li>'' @ format_inline (drop 2 stripped) @ ''</li>'']\<rparr>)"

text \<open>The \<^verbatim>\<open>else\<close> of the list test: an open list is closed.\<close>

definition leave_list :: "state \<Rightarrow> state" where
  "leave_list s =
     (if in_list s then s\<lparr>out := out s @ [''</ul>''], in_list := False\<rparr> else s)"

text \<open>The loop that counts the leading \<^verbatim>\<open>#\<close> characters and breaks at the first other one.\<close>

fun level_loop :: "nat \<Rightarrow> string \<Rightarrow> nat" where
  "level_loop level [] = level"
| "level_loop level (char # rest) =
     (if char = CHR ''#'' then level_loop (level + 1) rest else level)"

definition heading :: "state \<Rightarrow> string \<Rightarrow> state" where
  "heading s stripped =
     (let level = level_loop 0 stripped;
          content = py_strip (drop level stripped)
      in s\<lparr>out := out s @ [''<h'' @ str_nat level @ ''>'' @ format_inline content
                            @ ''</h'' @ str_nat level @ ''>'']\<rparr>)"

text \<open>The two nested tests of the rule branch; when the inner one fails the line falls
  through to the tests that follow.\<close>

definition is_rule :: "string \<Rightarrow> bool" where
  "is_rule stripped =
     ((startswith stripped ''---'' \<or> startswith stripped ''***'')
      \<and> length stripped \<ge> 3
      \<and> list_all (\<lambda>c. c = CHR ''-'' \<or> c = CHR ''*'' \<or> c = CHR '' '') stripped)"

text \<open>The body of the loop over the lines.\<close>

definition step :: "state \<Rightarrow> string \<Rightarrow> error + state" where
  "step s line =
     (let stripped = py_strip line
      in if startswith stripped ''```'' then Inr (code_fence s stripped)
         else if in_code_block s then Inr (s\<lparr>out := out s @ [html_escape line]\<rparr>)
         else if startswith stripped ''|'' then table_row s stripped
         else
           (case leave_table s of
              Inl e \<Rightarrow> Inl e
            | Inr s1 \<Rightarrow>
                if startswith stripped ''- '' then Inr (list_item s1 stripped)
                else
                  (let s2 = leave_list s1
                   in if startswith stripped ''#'' then Inr (heading s2 stripped)
                      else if is_rule stripped then Inr (s2\<lparr>out := out s2 @ [''<hr>'']\<rparr>)
                      else if stripped = [] then Inr s2
                      else Inr (s2\<lparr>out := out s2 @ [''<p>'' @ format_inline stripped @ ''</p>'']\<rparr>))))"

text \<open>The loop itself.\<close>

fun scan :: "state \<Rightarrow> string list \<Rightarrow> error + state" where
  "scan s [] = Inr s"
| "scan s (line # lines) =
     (case step s line of
        Inl e \<Rightarrow> Inl e
      | Inr s' \<Rightarrow> scan s' lines)"

text \<open>The statements after the loop; \<open>footer\<close> stands for the constant \<^verbatim>\<open>HTML_FOOTER\<close>.\<close>

definition flush_ends :: "string \<Rightarrow> state \<Rightarrow> error + string list" where
  "flush_ends footer s =
     (let out1 = (if in_code_block s then out s @ [''</code></pre>''] else out s);
          out2 = (if in_list s then out1 @ [''</ul>''] else out1)
      in (case (if in_table s
                then (case render_table (table_buffer s) of
                        Inl e \<Rightarrow> Inl e
                      | Inr t \<Rightarrow> Inr (out2 @ [t]))
                else Inr out2) of
            Inl e \<Rightarrow> Inl e
          | Inr out3 \<Rightarrow> Inr (out3 @ [footer])))"

text \<open>
  \<^verbatim>\<open>main\<close>: \<open>lines_read\<close> is the list of lines that \<^verbatim>\<open>readlines\<close> returns, or \<open>None\<close> when the
  input file does not exist. The result is the text written to the output file; nothing
  is written when the input is missing.
\<close>

definition main :: "string \<Rightarrow> string \<Rightarrow> string list option \<Rightarrow> error + string option" where
  "main header footer lines_read =
     (case lines_read of
        None \<Rightarrow> Inr None
      | Some lines \<Rightarrow>
          (case scan (init_state header) lines of
             Inl e \<Rightarrow> Inl e
           | Inr s \<Rightarrow>
               (case flush_ends footer s of
                  Inl e \<Rightarrow> Inl e
                | Inr out' \<Rightarrow> Inr (Some (join_lines out')))))"


section \<open>Closed forms and the vocabulary of the specification\<close>

text \<open>
  The definitions of this section are not part of the converter. They name what the loops
  of the converter compute, and what the specification says they compute, so that the two
  can be compared.
\<close>

text \<open>The header cells of a table as markup: the cells that are not empty.\<close>

definition header_html :: "string \<Rightarrow> string" where
  "header_html header_row =
     concat (map (\<lambda>c. ''<th>'' @ format_inline c @ ''</th>'')
                 (filter (\<lambda>c. c \<noteq> []) (header_cols header_row)))"

text \<open>One data row as markup, and as the list of parts the row loop appends.\<close>

definition row_html :: "string \<Rightarrow> string" where
  "row_html row =
     ''<tr>'' @ concat (map (\<lambda>c. ''<td>'' @ format_inline c @ ''</td>'') (clean_cols row)) @ ''</tr>''"

definition row_parts :: "string \<Rightarrow> string list" where
  "row_parts row =
     [''<tr>''] @ map (\<lambda>c. ''<td>'' @ format_inline c @ ''</td>'') (clean_cols row) @ [''</tr>'']"

text \<open>The rows rendered as data rows.\<close>

definition data_rows :: "string list \<Rightarrow> string list" where
  "data_rows rows = drop (if 1 < length rows \<and> contains (rows ! 1) ''---'' then 2 else 1) rows"

text \<open>The text that \<^verbatim>\<open>render_table\<close> returns.\<close>

definition table_html :: "string list \<Rightarrow> string" where
  "table_html rows =
     (if rows = [] then []
      else ''<table><thead><tr>'' @ header_html (hd rows) @ ''</tr></thead><tbody>''
           @ concat (map row_html (data_rows rows)) @ ''</tbody></table>'')"

text \<open>What \<^verbatim>\<open>html.escape\<close> does to one character.\<close>

definition escape_char :: "char \<Rightarrow> string" where
  "escape_char c =
     (if c = CHR ''&'' then ''&amp;''
      else if c = CHR ''<'' then ''&lt;''
      else if c = CHR ''>'' then ''&gt;''
      else if c = CHR 0x22 then ''&quot;''
      else if c = CHR 0x27 then ''&#x27;''
      else [c])"

text \<open>The eight categories of the specification, in the order of precedence in which the
  loop body tests for them; \<open>in_code\<close> is the value of \<^verbatim>\<open>in_code_block\<close> before the line.\<close>

datatype category =
  CodeFence | CodeContent | TableRow | ListItem | Heading | Rule | Blank | Paragraph

definition classify :: "bool \<Rightarrow> string \<Rightarrow> category" where
  "classify in_code line =
     (let stripped = py_strip line
      in if startswith stripped ''```'' then CodeFence
         else if in_code then CodeContent
         else if startswith stripped ''|'' then TableRow
         else if startswith stripped ''- '' then ListItem
         else if startswith stripped ''#'' then Heading
         else if is_rule stripped then Rule
         else if stripped = [] then Blank
         else Paragraph)"

text \<open>The opening tag of a code block for a fence line.\<close>

definition fence_open_tag :: "string \<Rightarrow> string" where
  "fence_open_tag stripped =
     ''<pre><code class='' @ [CHR 0x22] @ ''language-''
     @ (if py_strip (drop 3 stripped) = [] then ''java'' else py_strip (drop 3 stripped))
     @ [CHR 0x22] @ ''>''"

text \<open>The fragments by which a line of a category closes the blocks that are open before
  it: the pending table, then the list.\<close>

definition closed_blocks :: "state \<Rightarrow> category \<Rightarrow> string list" where
  "closed_blocks s cat =
     (if in_table s \<and> cat \<notin> {CodeFence, CodeContent, TableRow}
      then [table_html (table_buffer s)] else [])
     @ (if in_list s \<and> cat \<notin> {CodeFence, CodeContent, TableRow, ListItem}
        then [''</ul>''] else [])"

text \<open>The fragments a line of a category contributes for itself.\<close>

definition own_fragments :: "state \<Rightarrow> string \<Rightarrow> category \<Rightarrow> string list" where
  "own_fragments s line cat =
     (let stripped = py_strip line
      in case cat of
           CodeFence \<Rightarrow> [if in_code_block s then ''</code></pre>'' else fence_open_tag stripped]
         | CodeContent \<Rightarrow> [html_escape line]
         | TableRow \<Rightarrow> []
         | ListItem \<Rightarrow> (if in_list s then [] else [''<ul>''])
                         @ [''<li>'' @ format_inline (drop 2 stripped) @ ''</li>'']
         | Heading \<Rightarrow> [''<h'' @ str_nat (level_loop 0 stripped) @ ''>''
                        @ format_inline (py_strip (drop (level_loop 0 stripped) stripped))
                        @ ''</h'' @ str_nat (level_loop 0 stripped) @ ''>'']
         | Rule \<Rightarrow> [''<hr>'']
         | Blank \<Rightarrow> []
         | Paragraph \<Rightarrow> [''<p>'' @ format_inline stripped @ ''</p>''])"

text \<open>The table flag agrees with the table buffer.\<close>

definition table_inv :: "state \<Rightarrow> bool" where
  "table_inv s = (in_table s = (table_buffer s \<noteq> []))"

text \<open>Every character is a dash, an asterisk or a space.\<close>

definition rule_chars :: "string \<Rightarrow> bool" where
  "rule_chars st = list_all (\<lambda>c. c = CHR ''-'' \<or> c = CHR ''*'' \<or> c = CHR '' '') st"

text \<open>The rule test as the specification words it: length at least 3 and only rule
  characters.\<close>

definition claimed_rule :: "string \<Rightarrow> bool" where
  "claimed_rule st = (3 \<le> length st \<and> rule_chars st)"

text \<open>The cell splitting as the specification words it: one leading and one trailing
  separator are removed if present, the rest is split at the separators and each piece is
  trimmed.\<close>

definition strip_one_bar :: "string \<Rightarrow> string" where
  "strip_one_bar s =
     (let s1 = (if startswith s ''|'' then drop 1 s else s)
      in if s1 \<noteq> [] \<and> last s1 = CHR ''|'' then butlast s1 else s1)"

definition claimed_cells :: "string \<Rightarrow> string list" where
  "claimed_cells row = map py_strip (split_bar (strip_one_bar (py_strip row)))"


section \<open>The loops of \<^verbatim>\<open>render_table\<close> in closed form\<close>

lemma header_loop_eq:
  "header_loop parts cols =
     parts @ map (\<lambda>c. ''<th>'' @ format_inline c @ ''</th>'') (filter (\<lambda>c. c \<noteq> []) cols)"
  by (induction cols arbitrary: parts) simp_all

lemma cells_loop_eq:
  "cells_loop parts cols = parts @ map (\<lambda>c. ''<td>'' @ format_inline c @ ''</td>'') cols"
  by (induction cols arbitrary: parts) simp_all

lemma concat_row_parts: "concat (row_parts row) = row_html row"
  by (simp add: row_parts_def row_html_def)

lemma rows_loop_eq: "rows_loop parts rows = parts @ concat (map row_parts rows)"
  by (induction rows arbitrary: parts) (simp_all add: cells_loop_eq row_parts_def)

lemma concat_rows: "concat (concat (map row_parts rows)) = concat (map row_html rows)"
  by (induction rows) (simp_all add: concat_row_parts)

lemma start_idx_eq:
  "start_idx rows = Inr (if 1 < length rows \<and> contains (rows ! 1) ''---'' then 2 else 1)"
  by (simp add: start_idx_def py_index_def)

lemma header_parts_concat:
  "concat (header_loop ([''<table>''] @ [''<thead><tr>'']) (header_cols h) @ [''</tr></thead>''])
     = ''<table><thead><tr>'' @ header_html h @ ''</tr></thead>''"
  by (simp add: header_loop_eq header_html_def)

text \<open>
  \<^verbatim>\<open>render_table\<close> never fails: both index accesses are guarded by tests on the length.
\<close>

lemma render_table_Inr: "render_table rows = Inr (table_html rows)"
proof (cases rows)
  case Nil
  then show ?thesis by (simp add: render_table_def table_html_def)
next
  case (Cons h rest)
  then have idx: "py_index rows 0 = Inr h" by (simp add: py_index_def)
  have ne: "rows \<noteq> []" and hd: "hd rows = h" using Cons by simp_all
  define hp where "hp = header_loop ([''<table>''] @ [''<thead><tr>'']) (header_cols h) @ [''</tr></thead>'']"
  have hpc: "concat hp = ''<table><thead><tr>'' @ header_html h @ ''</tr></thead>''"
    unfolding hp_def by (rule header_parts_concat)
  have "render_table rows
          = Inr (concat (rows_loop (hp @ [''<tbody>'']) (data_rows rows) @ [''</tbody></table>'']))"
    unfolding render_table_def idx start_idx_eq hp_def data_rows_def Let_def using ne
    by (simp only: if_False sum.case)
  also have "concat (rows_loop (hp @ [''<tbody>'']) (data_rows rows) @ [''</tbody></table>''])
          = concat hp @ ''<tbody>'' @ concat (map row_html (data_rows rows)) @ ''</tbody></table>''"
    by (simp only: rows_loop_eq concat_append concat_rows concat.simps append_Nil2 append_assoc)
  finally show ?thesis
    unfolding table_html_def hpc hd using ne by simp
qed

lemma table_html_not_hr: "table_html rows \<noteq> ''<hr>''"
  by (simp add: table_html_def)


section \<open>One line of the scan\<close>

lemma leave_table_Inr:
  "leave_table s =
     Inr (if in_table s
          then s\<lparr>out := out s @ [table_html (table_buffer s)], table_buffer := [], in_table := False\<rparr>
          else s)"
  by (simp add: leave_table_def render_table_Inr)

lemma table_row_Inr:
  "table_row s stripped =
     Inr (if \<not> in_table s \<and> table_buffer s \<noteq> []
          then s\<lparr>out := out s @ [table_html (table_buffer s)], table_buffer := [stripped], in_table := True\<rparr>
          else s\<lparr>in_table := True, table_buffer := table_buffer s @ [stripped]\<rparr>)"
  by (cases "in_table s") (auto simp: table_row_def render_table_Inr)

lemma step_total: "\<exists>s'. step s line = Inr s'"
  by (simp add: step_def Let_def leave_table_Inr table_row_Inr)

lemma step_inv: "table_inv s \<Longrightarrow> step s line = Inr s' \<Longrightarrow> table_inv s'"
  by (auto simp: step_def Let_def leave_table_Inr table_row_Inr table_inv_def code_fence_def
                 list_item_def leave_list_def heading_def split: if_splits)

lemma scan_append:
  "scan s (xs @ ys) = (case scan s xs of Inl e \<Rightarrow> Inl e | Inr s' \<Rightarrow> scan s' ys)"
  by (induction xs arbitrary: s) (auto split: sum.splits)

lemma scan_total: "\<exists>s'. scan s lines = Inr s'"
proof (induction lines arbitrary: s)
  case Nil
  show ?case by simp
next
  case (Cons l ls)
  obtain s1 where "step s l = Inr s1" using step_total by blast
  then show ?case using Cons [of s1] by simp
qed

lemma scan_inv: "table_inv s \<Longrightarrow> scan s lines = Inr s' \<Longrightarrow> table_inv s'"
proof (induction lines arbitrary: s)
  case Nil
  then show ?case by simp
next
  case (Cons l ls)
  obtain s1 where s1: "step s l = Inr s1" using step_total by blast
  then have "table_inv s1" using Cons.prems(1) step_inv by blast
  then show ?case using Cons.IH [of s1] Cons.prems(2) s1 by simp
qed

lemma init_inv: "table_inv (init_state header)"
  by (simp add: table_inv_def init_state_def)

lemma is_rule_iff:
  "is_rule st = ((startswith st ''---'' \<or> startswith st ''***'') \<and> rule_chars st)"
  using startswith_length [of st "''---''"] startswith_length [of st "''***''"]
  by (auto simp: is_rule_def rule_chars_def)

lemma step_fragments_gen:
  assumes "in_table s \<or> table_buffer s = []"
  shows "\<exists>s'. step s line = Inr s' \<and>
           out s' = out s @ closed_blocks s (classify (in_code_block s) line)
                          @ own_fragments s line (classify (in_code_block s) line)"
  using assms
  by (auto simp: step_def Let_def leave_table_Inr table_row_Inr classify_def closed_blocks_def
                 own_fragments_def code_fence_def fence_open_tag_def list_item_def leave_list_def
                 heading_def)

lemma replace_char_Cons:
  "replace_char c r (x # xs) = (if x = c then r else [x]) @ replace_char c r xs"
  by (simp add: replace_char_def)

lemma replace_char_Nil: "replace_char c r [] = []"
  by (simp add: replace_char_def)

lemma replace_char_append:
  "replace_char c r (xs @ ys) = replace_char c r xs @ replace_char c r ys"
  by (simp add: replace_char_def)

lemma html_escape_Cons: "html_escape (x # xs) = escape_char x @ html_escape xs"
  by (simp add: html_escape_def escape_char_def replace_char_Cons replace_char_append replace_char_Nil)

lemma html_escape_chars: "html_escape s = concat (map escape_char s)"
proof (induction s)
  case Nil
  show ?case by (simp add: html_escape_def replace_char_Nil)
next
  case (Cons x xs)
  then show ?case by (simp add: html_escape_Cons)
qed

lemma step_code_line:
  assumes "in_code_block s" and "\<not> startswith (py_strip line) ''```''"
  shows "step s line = Inr (s\<lparr>out := out s @ [html_escape line]\<rparr>)"
  using assms by (simp add: step_def Let_def)

lemma scan_code_lines:
  assumes "in_code_block s" and "\<forall>l \<in> set body. \<not> startswith (py_strip l) ''```''"
  shows "scan s body = Inr (s\<lparr>out := out s @ map html_escape body\<rparr>)"
  using assms
proof (induction body arbitrary: s)
  case Nil
  show ?case by simp
next
  case (Cons l ls)
  have st: "step s l = Inr (s\<lparr>out := out s @ [html_escape l]\<rparr>)"
    using Cons.prems by (simp add: step_code_line)
  have "scan (s\<lparr>out := out s @ [html_escape l]\<rparr>) ls
          = Inr (s\<lparr>out := out s @ [html_escape l]\<rparr>
                  \<lparr>out := out (s\<lparr>out := out s @ [html_escape l]\<rparr>) @ map html_escape ls\<rparr>)"
    using Cons.prems by (intro Cons.IH) simp_all
  then show ?case using st by simp
qed

lemma flush_ends_Inr:
  "flush_ends footer s =
     Inr (out s
          @ (if in_code_block s then [''</code></pre>''] else [])
          @ (if in_list s then [''</ul>''] else [])
          @ (if in_table s then [table_html (table_buffer s)] else [])
          @ [footer])"
  by (simp add: flush_ends_def Let_def render_table_Inr)

lemma step_fence_open:
  assumes "\<not> in_code_block s" and "startswith (py_strip f) ''```''"
  shows "step s f = Inr (s\<lparr>out := out s @ [fence_open_tag (py_strip f)],
                          code_lang := (if py_strip (drop 3 (py_strip f)) = [] then ''java''
                                        else py_strip (drop 3 (py_strip f))),
                          in_code_block := True\<rparr>)"
  using assms by (simp add: step_def Let_def code_fence_def fence_open_tag_def)


section \<open>Properties of the inline formatter\<close>

lemma startswith_Cons:
  "startswith (c # cs) (d # ds) = (c = d \<and> startswith cs ds)"
  by (auto simp: startswith_def)

lemma startswith_Nil [simp]: "startswith s []"
  by (simp add: startswith_def)

text \<open>A text without the character that opens a pattern is copied by the scan for that
  pattern.\<close>

lemma sub_bold_plain: "CHR ''*'' \<notin> set s \<Longrightarrow> sub_bold s = s"
  by (induction s) (auto simp: match_bold_def startswith_Cons)

lemma sub_italic_plain: "CHR ''*'' \<notin> set s \<Longrightarrow> sub_italic p s = s"
  by (induction s arbitrary: p) (auto simp: match_italic_def startswith_Cons)

lemma sub_code_plain: "CHR 0x60 \<notin> set s \<Longrightarrow> sub_code s = s"
  by (induction s) (auto simp: match_code_def startswith_Cons)

lemma sub_link_plain: "CHR ''['' \<notin> set s \<Longrightarrow> sub_link s = s"
  by (induction s) (auto simp: match_link_def startswith_Cons)

text \<open>
  Claim C6. The line \<^verbatim>\<open>**bold** and *italic* and `code` and [text](url)\<close> is formatted to a
  strong-emphasis span around "bold", an emphasis span around "italic", a code span around
  "code" and a hyperlink with destination "url" and visible text "text". The four
  substitutions run in the order bold, italic, code, link, each on the result of the one
  before; the four intermediate texts are stated one by one.
\<close>

theorem format_inline_round_trip:
  "sub_bold ''**bold** and *italic* and `code` and [text](url)''
     = ''<strong>bold</strong> and *italic* and `code` and [text](url)''
   \<and> sub_italic None ''<strong>bold</strong> and *italic* and `code` and [text](url)''
     = ''<strong>bold</strong> and <em>italic</em> and `code` and [text](url)''
   \<and> sub_code ''<strong>bold</strong> and <em>italic</em> and `code` and [text](url)''
     = ''<strong>bold</strong> and <em>italic</em> and <code>code</code> and [text](url)''
   \<and> sub_link ''<strong>bold</strong> and <em>italic</em> and <code>code</code> and [text](url)''
     = ''<strong>bold</strong> and <em>italic</em> and <code>code</code> and <a href=''
         @ [CHR 0x22] @ ''url'' @ [CHR 0x22] @ ''>text</a>''
   \<and> format_inline ''**bold** and *italic* and `code` and [text](url)''
     = ''<strong>bold</strong> and <em>italic</em> and <code>code</code> and <a href=''
         @ [CHR 0x22] @ ''url'' @ [CHR 0x22] @ ''>text</a>''"
  by code_simp

text \<open>
  Claim C7. A line without markup characters is returned unchanged by the inline formatter.
  It is enough that the line has no asterisk, no backtick and no opening square bracket;
  closing brackets and parentheses may occur.
\<close>

theorem format_inline_plain:
  assumes "CHR ''*'' \<notin> set s" and "CHR 0x60 \<notin> set s" and "CHR ''['' \<notin> set s"
  shows "format_inline s = s"
  using assms
  by (simp add: format_inline_def sub_bold_plain sub_italic_plain sub_code_plain sub_link_plain)

theorem format_inline_plain_witness:
  "CHR ''*'' \<notin> set ''Use a (lazy) holder, e.g. x_1 & y!'' \<and>
   CHR 0x60 \<notin> set ''Use a (lazy) holder, e.g. x_1 & y!'' \<and>
   CHR ''['' \<notin> set ''Use a (lazy) holder, e.g. x_1 & y!'' \<and>
   format_inline ''Use a (lazy) holder, e.g. x_1 & y!'' = ''Use a (lazy) holder, e.g. x_1 & y!''"
  using format_inline_plain [of "''Use a (lazy) holder, e.g. x_1 & y!''"] by simp


section \<open>The claims about the block parser\<close>

text \<open>
  Claim C1. The claim says that at most one of code-block mode, table mode and list mode
  is open at any point of the scan, and that a line opening a new block first closes the
  block that is open. The scan does not do that for a fence line and for a table row: a
  fence line arriving while a table is open leaves the table open and unflushed, so that
  the table is rendered behind the code block that follows it in the input; a table row
  arriving while a list is open leaves the list open. The three evaluations below are the
  state after a table row and a fence, the document written for a table followed by a
  fenced block and a paragraph, and the state after a list item and a table row.
\<close>

theorem fence_leaves_table_open:
  "scan (init_state ''H'') [''| a |\<newline>'', ''```\<newline>'']
     = Inr \<lparr>out = [''H'', ''<pre><code class='' @ [CHR 0x22] @ ''language-java'' @ [CHR 0x22] @ ''>''],
            in_code_block = True, code_lang = ''java'', in_table = True, in_list = False,
            table_buffer = [''| a |'']\<rparr>
   \<and> main ''H'' ''F'' (Some [''| a |\<newline>'', ''```\<newline>'', ''x\<newline>'', ''```\<newline>'', ''p\<newline>''])
     = Inr (Some (join_lines
         [''H'', ''<pre><code class='' @ [CHR 0x22] @ ''language-java'' @ [CHR 0x22] @ ''>'',
          ''x\<newline>'', ''</code></pre>'',
          ''<table><thead><tr><th>a</th></tr></thead><tbody></tbody></table>'',
          ''<p>p</p>'', ''F'']))
   \<and> scan (init_state ''H'') [''- x\<newline>'', ''| a |\<newline>'']
     = Inr \<lparr>out = [''H'', ''<ul>'', ''<li>x</li>''],
            in_code_block = False, code_lang = [], in_table = True, in_list = True,
            table_buffer = [''| a |'']\<rparr>"
  by code_simp

text \<open>
  Claim C2, as stated, fails: the line \<^verbatim>\<open>* * *\<close> is matched by none of the earlier rules,
  its trimmed text has length 5 and consists of asterisks and spaces only, and yet the scan
  emits a paragraph for it, not a rule.
\<close>

theorem rule_classification_counterexample:
  "claimed_rule (py_strip ''* * *\<newline>'')
   \<and> \<not> startswith (py_strip ''* * *\<newline>'') ''```''
   \<and> \<not> startswith (py_strip ''* * *\<newline>'') ''|''
   \<and> \<not> startswith (py_strip ''* * *\<newline>'') ''- ''
   \<and> \<not> startswith (py_strip ''* * *\<newline>'') ''#''
   \<and> step (init_state ''H'') ''* * *\<newline>''
     = Inr \<lparr>out = [''H'', ''<p><em> </em> *</p>''], in_code_block = False, code_lang = [],
            in_table = False, in_list = False, table_buffer = []\<rparr>"
  by code_simp

text \<open>
  Claim C2, amended. For a line that is outside a code block and is not a fence line, a
  table row, a list item or a heading, the scan closes the open table and list and then
  emits a rule element exactly when the trimmed line starts with \<^verbatim>\<open>---\<close> or \<^verbatim>\<open>***\<close> and
  every character of it is a dash, an asterisk or a space (its length is then at least 3).
  Otherwise it emits nothing for an empty trimmed line and a paragraph for any other.
\<close>

theorem rule_classification:
  assumes "\<not> in_code_block s"
    and "\<not> startswith (py_strip line) ''```''"
    and "\<not> startswith (py_strip line) ''|''"
    and "\<not> startswith (py_strip line) ''- ''"
    and "\<not> startswith (py_strip line) ''#''"
  shows "\<exists>s'. step s line = Inr s'
           \<and> out s' = out s
                @ (if in_table s then [table_html (table_buffer s)] else [])
                @ (if in_list s then [''</ul>''] else [])
                @ (if (startswith (py_strip line) ''---'' \<or> startswith (py_strip line) ''***'')
                      \<and> rule_chars (py_strip line)
                   then [''<hr>'']
                   else if py_strip line = [] then []
                   else [''<p>'' @ format_inline (py_strip line) @ ''</p>''])
           \<and> ((''<hr>'' \<in> set (drop (length (out s)) (out s')))
                = ((startswith (py_strip line) ''---'' \<or> startswith (py_strip line) ''***'')
                   \<and> rule_chars (py_strip line)))"
  using assms table_html_not_hr [of "table_buffer s"]
  by (auto simp: step_def Let_def leave_table_Inr leave_list_def is_rule_iff)

text \<open>
  The amended claim C2 at the line \<^verbatim>\<open>---\<close>: a rule element is emitted.
\<close>

theorem rule_classification_witness:
  "\<not> in_code_block (init_state ''H'')
   \<and> \<not> startswith (py_strip ''---\<newline>'') ''```''
   \<and> \<not> startswith (py_strip ''---\<newline>'') ''|''
   \<and> \<not> startswith (py_strip ''---\<newline>'') ''- ''
   \<and> \<not> startswith (py_strip ''---\<newline>'') ''#''
   \<and> (\<exists>s'. step (init_state ''H'') ''---\<newline>'' = Inr s' \<and> out s' = [''H'', ''<hr>''])"
proof -
  have st: "py_strip ''---\<newline>'' = ''---''" by code_simp
  have h1: "\<not> in_code_block (init_state ''H'')" by (simp add: init_state_def)
  have h2: "\<not> startswith (py_strip ''---\<newline>'') ''```''" unfolding st by code_simp
  have h3: "\<not> startswith (py_strip ''---\<newline>'') ''|''" unfolding st by code_simp
  have h4: "\<not> startswith (py_strip ''---\<newline>'') ''- ''" unfolding st by code_simp
  have h5: "\<not> startswith (py_strip ''---\<newline>'') ''#''" unfolding st by code_simp
  have rc: "rule_chars ''---''" by code_simp
  have sw: "startswith ''---'' ''---''" by code_simp
  have "\<exists>s'. step (init_state ''H'') ''---\<newline>'' = Inr s' \<and> out s' = [''H'', ''<hr>'']"
    using rule_classification [OF h1 h2 h3 h4 h5] unfolding st
    by (auto simp: rc sw init_state_def)
  with h1 h2 h3 h4 h5 show ?thesis by blast
qed

text \<open>
  The lines \<^verbatim>\<open>---\<close> and \<^verbatim>\<open>***\<close> are rules, \<^verbatim>\<open>- item\<close> is a list item by precedence, and
  \<^verbatim>\<open>-- not quite\<close> is a paragraph.
\<close>

lemma rule_examples:
  "scan (init_state ''H'') [''---\<newline>'', ''***\<newline>'', ''- item\<newline>'', ''-- not quite\<newline>'']
     = Inr \<lparr>out = [''H'', ''<hr>'', ''<hr>'', ''<ul>'', ''<li>item</li>'', ''</ul>'',
                   ''<p>-- not quite</p>''],
            in_code_block = False, code_lang = [], in_table = False, in_list = False,
            table_buffer = []\<rparr>"
  by code_simp

text \<open>
  Claim C3, as stated, fails: for the buffered row \<^verbatim>\<open>||b|\<close> the specified splitting (one
  leading and one trailing separator removed) gives an empty cell and the cell \<^verbatim>\<open>b\<close>, while
  the converter removes both leading separators and renders the single cell \<^verbatim>\<open>b\<close>.
\<close>

theorem table_cells_counterexample:
  "claimed_cells ''||b|'' = [[], ''b'']
   \<and> clean_cols ''||b|'' = [''b'']
   \<and> render_table [''| h | k |'', ''||b|'']
     = Inr ''<table><thead><tr><th>h</th><th>k</th></tr></thead><tbody><tr><td>b</td></tr></tbody></table>''"
  by code_simp

text \<open>
  Claim C3, amended. For a non-empty buffer the rendered table is the header row followed
  by the data rows. The cells of a data row are obtained by trimming the row, removing
  every leading and every trailing separator character, splitting the rest at the
  separators and trimming each piece; every such cell is rendered, whatever the number of
  header cells (no padding, no truncation). The cells of the header row are obtained in the
  same way without the first trimming, and the header cells that are empty are not
  rendered. A second row that contains \<^verbatim>\<open>---\<close> is not rendered.
\<close>

theorem render_table_cells:
  assumes "rows \<noteq> []"
  shows "render_table rows =
     Inr (''<table><thead><tr>''
          @ concat (map (\<lambda>c. ''<th>'' @ format_inline c @ ''</th>'')
                        (filter (\<lambda>c. c \<noteq> []) (map py_strip (split_bar (strip_bar (hd rows))))))
          @ ''</tr></thead><tbody>''
          @ concat (map (\<lambda>row. ''<tr>''
                           @ concat (map (\<lambda>c. ''<td>'' @ format_inline c @ ''</td>'')
                                         (map py_strip (split_bar (strip_bar (py_strip row)))))
                           @ ''</tr>'')
                        (drop (if 1 < length rows \<and> contains (rows ! 1) ''---'' then 2 else 1) rows))
          @ ''</tbody></table>'')"
  unfolding render_table_Inr table_html_def header_html_def row_html_def data_rows_def
            header_cols_def clean_cols_def
  using assms by (simp only: if_False)

text \<open>
  The amended claim C3 at a table of a header with two cells, a delimiter row and a data
  row with doubled outer separators and three cells.
\<close>

theorem render_table_cells_witness:
  "[''| h | k |'', ''|---|---|'', ''|| x | y | z ||''] \<noteq> []
   \<and> render_table [''| h | k |'', ''|---|---|'', ''|| x | y | z ||'']
     = Inr ''<table><thead><tr><th>h</th><th>k</th></tr></thead><tbody><tr><td>x</td><td>y</td><td>z</td></tr></tbody></table>''"
proof -
  have ne: "[''| h | k |'', ''|---|---|'', ''|| x | y | z ||''] \<noteq> []" by simp
  have ev: "''<table><thead><tr>''
          @ concat (map (\<lambda>c. ''<th>'' @ format_inline c @ ''</th>'')
                        (filter (\<lambda>c. c \<noteq> []) (map py_strip (split_bar (strip_bar
                           (hd [''| h | k |'', ''|---|---|'', ''|| x | y | z ||'']))))))
          @ ''</tr></thead><tbody>''
          @ concat (map (\<lambda>row. ''<tr>''
                           @ concat (map (\<lambda>c. ''<td>'' @ format_inline c @ ''</td>'')
                                         (map py_strip (split_bar (strip_bar (py_strip row)))))
                           @ ''</tr>'')
                        (drop (if 1 < length [''| h | k |'', ''|---|---|'', ''|| x | y | z ||'']
                                  \<and> contains ([''| h | k |'', ''|---|---|'', ''|| x | y | z ||''] ! 1) ''---''
                               then 2 else 1)
                              [''| h | k |'', ''|---|---|'', ''|| x | y | z ||'']))
          @ ''</tbody></table>''
        = ''<table><thead><tr><th>h</th><th>k</th></tr></thead><tbody><tr><td>x</td><td>y</td><td>z</td></tr></tbody></table>''"
    by code_simp
  show ?thesis using render_table_cells [OF ne] ne unfolding ev by simp
qed

text \<open>
  Claim C4. A line processed while the code block is open, other than a fence line, changes
  nothing in the state but the output, to which it appends the raw line after
  \<^verbatim>\<open>html.escape\<close>; the escaped line is the raw line with each of the five characters
  ampersand, less-than, greater-than, double quote and single quote replaced by its entity and every other character kept. The line is neither
  formatted nor classified as a table row, list item, heading, rule or paragraph.
\<close>

theorem code_block_verbatim:
  assumes "in_code_block s" and "\<not> startswith (py_strip line) ''```''"
  shows "step s line = Inr (s\<lparr>out := out s @ [html_escape line]\<rparr>)
         \<and> html_escape line = concat (map escape_char line)"
  using assms by (simp add: step_code_line html_escape_chars)

text \<open>
  Claim C4 at a line that looks like a table row with bold text, markup and a heading marker.
\<close>

theorem code_block_verbatim_witness:
  "in_code_block (init_state ''H''\<lparr>in_code_block := True\<rparr>)
   \<and> \<not> startswith (py_strip ''| **x** <b> - # y\<newline>'') ''```''
   \<and> step (init_state ''H''\<lparr>in_code_block := True\<rparr>) ''| **x** <b> - # y\<newline>''
       = Inr (init_state ''H''\<lparr>in_code_block := True, out := [''H'', ''| **x** &lt;b&gt; - # y\<newline>'']\<rparr>)"
proof -
  have h1: "in_code_block (init_state ''H''\<lparr>in_code_block := True\<rparr>)" by simp
  have h2: "\<not> startswith (py_strip ''| **x** <b> - # y\<newline>'') ''```''" by code_simp
  have e: "html_escape ''| **x** <b> - # y\<newline>'' = ''| **x** &lt;b&gt; - # y\<newline>''" by code_simp
  show ?thesis using code_block_verbatim [OF h1 h2] h1 h2 unfolding e
    by (simp add: init_state_def)
qed

text \<open>
  Claim C5. After the last line the open blocks are closed in the order code block, list,
  table, with the fragments a normal close emits, and the footer follows. In particular,
  when a fence line opens a code block and no later line is a fence line, the document
  written ends with the opening tag, the escaped lines, the closing tag of the code block,
  then the closing of a list and of a table that were open before the fence, then the
  footer.
\<close>

theorem end_of_input_flush:
  assumes "scan (init_state header) pre = Inr s0"
    and "\<not> in_code_block s0"
    and "startswith (py_strip fence) ''```''"
    and "\<forall>l \<in> set body. \<not> startswith (py_strip l) ''```''"
  shows "flush_ends footer s =
           Inr (out s
                @ (if in_code_block s then [''</code></pre>''] else [])
                @ (if in_list s then [''</ul>''] else [])
                @ (if in_table s then [table_html (table_buffer s)] else [])
                @ [footer])
         \<and> main header footer (Some (pre @ [fence] @ body)) =
           Inr (Some (join_lines
                 (out s0 @ [fence_open_tag (py_strip fence)] @ map html_escape body
                  @ [''</code></pre>'']
                  @ (if in_list s0 then [''</ul>''] else [])
                  @ (if in_table s0 then [table_html (table_buffer s0)] else [])
                  @ [footer])))"
proof -
  define s1 where "s1 = s0\<lparr>out := out s0 @ [fence_open_tag (py_strip fence)],
                          code_lang := (if py_strip (drop 3 (py_strip fence)) = [] then ''java''
                                        else py_strip (drop 3 (py_strip fence))),
                          in_code_block := True\<rparr>"
  have f: "step s0 fence = Inr s1"
    unfolding s1_def using assms(2,3) by (rule step_fence_open)
  have c1: "in_code_block s1" by (simp add: s1_def)
  have b: "scan s1 body = Inr (s1\<lparr>out := out s1 @ map html_escape body\<rparr>)"
    using c1 assms(4) by (rule scan_code_lines)
  have "scan (init_state header) (pre @ [fence] @ body)
          = Inr (s1\<lparr>out := out s1 @ map html_escape body\<rparr>)"
    using assms(1) f b by (simp add: scan_append)
  then have "main header footer (Some (pre @ [fence] @ body)) =
           Inr (Some (join_lines
                 (out s0 @ [fence_open_tag (py_strip fence)] @ map html_escape body
                  @ [''</code></pre>'']
                  @ (if in_list s0 then [''</ul>''] else [])
                  @ (if in_table s0 then [table_html (table_buffer s0)] else [])
                  @ [footer])))"
    by (simp add: main_def flush_ends_Inr s1_def)
  then show ?thesis by (simp add: flush_ends_Inr)
qed

text \<open>
  Claim C5 at a list item followed by an unterminated fenced block.
\<close>

theorem end_of_input_flush_witness:
  "scan (init_state ''H'') [''- item\<newline>''] 
     = Inr \<lparr>out = [''H'', ''<ul>'', ''<li>item</li>''], in_code_block = False, code_lang = [],
            in_table = False, in_list = True, table_buffer = []\<rparr>
   \<and> startswith (py_strip ''```py\<newline>'') ''```''
   \<and> \<not> startswith (py_strip ''if a < b:\<newline>'') ''```''
   \<and> main ''H'' ''F'' (Some [''- item\<newline>'', ''```py\<newline>'', ''if a < b:\<newline>''])
     = Inr (Some (join_lines
         [''H'', ''<ul>'', ''<li>item</li>'',
          ''<pre><code class='' @ [CHR 0x22] @ ''language-py'' @ [CHR 0x22] @ ''>'',
          ''if a &lt; b:\<newline>'', ''</code></pre>'', ''</ul>'', ''F'']))"
proof -
  define s0 where "s0 = \<lparr>out = [''H'', ''<ul>'', ''<li>item</li>''], in_code_block = False,
                         code_lang = [], in_table = False, in_list = True, table_buffer = []\<rparr>"
  have h1: "scan (init_state ''H'') [''- item\<newline>''] = Inr s0" unfolding s0_def by code_simp
  have h2: "\<not> in_code_block s0" by (simp add: s0_def)
  have h3: "startswith (py_strip ''```py\<newline>'') ''```''" by code_simp
  have h4': "\<not> startswith (py_strip ''if a < b:\<newline>'') ''```''" by code_simp
  then have h4: "\<forall>l \<in> set [''if a < b:\<newline>'']. \<not> startswith (py_strip l) ''```''" by simp
  have t: "fence_open_tag (py_strip ''```py\<newline>'')
             = ''<pre><code class='' @ [CHR 0x22] @ ''language-py'' @ [CHR 0x22] @ ''>''"
    by code_simp
  have e: "html_escape ''if a < b:\<newline>'' = ''if a &lt; b:\<newline>''" by code_simp
  have rhs: "out s0 @ [fence_open_tag (py_strip ''```py\<newline>'')] @ map html_escape [''if a < b:\<newline>'']
          @ [''</code></pre>''] @ (if in_list s0 then [''</ul>''] else [])
          @ (if in_table s0 then [table_html (table_buffer s0)] else []) @ [''F'']
        = [''H'', ''<ul>'', ''<li>item</li>'',
           ''<pre><code class='' @ [CHR 0x22] @ ''language-py'' @ [CHR 0x22] @ ''>'',
           ''if a &lt; b:\<newline>'', ''</code></pre>'', ''</ul>'', ''F'']"
    by (simp add: s0_def t e)
  have lhs: "[''- item\<newline>''] @ [''```py\<newline>''] @ [''if a < b:\<newline>'']
        = [''- item\<newline>'', ''```py\<newline>'', ''if a < b:\<newline>'']"
    by simp
  have "main ''H'' ''F'' (Some ([''- item\<newline>''] @ [''```py\<newline>''] @ [''if a < b:\<newline>'']))
     = Inr (Some (join_lines
         (out s0 @ [fence_open_tag (py_strip ''```py\<newline>'')] @ map html_escape [''if a < b:\<newline>'']
          @ [''</code></pre>''] @ (if in_list s0 then [''</ul>''] else [])
          @ (if in_table s0 then [table_html (table_buffer s0)] else []) @ [''F''])))"
    using end_of_input_flush [OF h1 h2 h3 h4, of "''F''"] by blast
  then have "main ''H'' ''F'' (Some [''- item\<newline>'', ''```py\<newline>'', ''if a < b:\<newline>''])
     = Inr (Some (join_lines
         [''H'', ''<ul>'', ''<li>item</li>'',
          ''<pre><code class='' @ [CHR 0x22] @ ''language-py'' @ [CHR 0x22] @ ''>'',
          ''if a &lt; b:\<newline>'', ''</code></pre>'', ''</ul>'', ''F'']))"
    by (simp only: rhs lhs)
  with h1 h3 h4' show ?thesis unfolding s0_def by blast
qed

text \<open>
  Claim C8. The converter returns a result for every input. At every point of the scan, a
  line falls into exactly one category, the value of \<open>classify\<close>, and the scan appends the
  closing fragments of the blocks that the category ends followed by the fragments of the
  category itself; these are none for a blank line and for a table row. A second table row
  that contains \<^verbatim>\<open>---\<close> contributes nothing to the rendered table.
\<close>

theorem parser_total:
  "(\<exists>r. main header footer lines_read = Inr r)
   \<and> (\<exists>s s'. scan (init_state header) pre = Inr s \<and> step s line = Inr s'
           \<and> out s' = out s @ closed_blocks s (classify (in_code_block s) line)
                            @ own_fragments s line (classify (in_code_block s) line))
   \<and> (contains d ''---'' \<longrightarrow>
        render_table (h # d # rows) =
          Inr (''<table><thead><tr>'' @ header_html h @ ''</tr></thead><tbody>''
               @ concat (map row_html rows) @ ''</tbody></table>''))"
proof -
  have a: "\<exists>r. main header footer lines_read = Inr r"
  proof (cases lines_read)
    case None
    then show ?thesis by (simp add: main_def)
  next
    case (Some lines)
    obtain s where "scan (init_state header) lines = Inr s" using scan_total by blast
    then show ?thesis using Some by (simp add: main_def flush_ends_Inr)
  qed
  obtain s where s: "scan (init_state header) pre = Inr s" using scan_total by blast
  then have "table_inv s" using init_inv scan_inv by blast
  then have "in_table s \<or> table_buffer s = []" by (auto simp: table_inv_def)
  then have b: "\<exists>s s'. scan (init_state header) pre = Inr s \<and> step s line = Inr s'
           \<and> out s' = out s @ closed_blocks s (classify (in_code_block s) line)
                            @ own_fragments s line (classify (in_code_block s) line)"
    using step_fragments_gen [of s line] s by blast
  have c: "contains d ''---'' \<longrightarrow>
        render_table (h # d # rows) =
          Inr (''<table><thead><tr>'' @ header_html h @ ''</tr></thead><tbody>''
               @ concat (map row_html rows) @ ''</tbody></table>'')"
    by (simp add: render_table_Inr table_html_def data_rows_def del: contains.simps)
  from a b c show ?thesis by blast
qed

text \<open>
  Claim C8 at a table of a header, a delimiter row and one data row.
\<close>

theorem parser_total_witness:
  "contains ''|---|'' ''---''
   \<and> (\<exists>r. main ''H'' ''F'' (Some [''| h |\<newline>'', ''|---|\<newline>'', ''| x |\<newline>'']) = Inr r)
   \<and> render_table [''| h |'', ''|---|'', ''| x |'']
     = Inr ''<table><thead><tr><th>h</th></tr></thead><tbody><tr><td>x</td></tr></tbody></table>''"
proof -
  have c: "contains ''|---|'' ''---''" by code_simp
  have hh: "header_html ''| h |'' = ''<th>h</th>''" by code_simp
  have rh: "concat (map row_html [''| x |'']) = ''<tr><td>x</td></tr>''" by code_simp
  note t = parser_total [where header = "''H''" and footer = "''F''"
      and lines_read = "Some [''| h |\<newline>'', ''|---|\<newline>'', ''| x |\<newline>'']"
      and pre = "[]" and line = "[]" and d = "''|---|''" and h = "''| h |''" and rows = "[''| x |'']"]
  from t have a: "\<exists>r. main ''H'' ''F'' (Some [''| h |\<newline>'', ''|---|\<newline>'', ''| x |\<newline>'']) = Inr r"
    by blast
  from t c have "render_table [''| h |'', ''|---|'', ''| x |'']
     = Inr (''<table><thead><tr>'' @ header_html ''| h |'' @ ''</tr></thead><tbody>''
            @ concat (map row_html [''| x |'']) @ ''</tbody></table>'')"
    by blast
  then have b: "render_table [''| h |'', ''|---|'', ''| x |'']
     = Inr ''<table><thead><tr><th>h</th></tr></thead><tbody><tr><td>x</td></tr></tbody></table>''"
    unfolding hh rh by simp
  from c a b show ?thesis by blast
qed

text \<open>
  Claim C9. After every sequence of lines the table flag is true exactly when the table
  buffer is not empty. The state at the end of each line of a document is the state after a
  prefix of its lines, hence an instance.
\<close>

theorem table_flag_iff_buffer:
  "\<exists>s. scan (init_state header) lines = Inr s \<and> in_table s = (table_buffer s \<noteq> [])"
proof -
  obtain s where s: "scan (init_state header) lines = Inr s" using scan_total by blast
  then have "table_inv s" using init_inv scan_inv by blast
  then show ?thesis using s by (auto simp: table_inv_def)
qed

text \<open>
  Claim C10. The header loop appends a header cell for the non-empty cells only, the data
  loop appends a data cell for every cell. The row \<^verbatim>\<open>| a | | b |\<close> has three cells, the
  second one empty; as a header it is rendered with two cells, as a data row with three.
\<close>

theorem header_data_asymmetry:
  "header_loop html_parts cols
     = html_parts @ map (\<lambda>c. ''<th>'' @ format_inline c @ ''</th>'') (filter (\<lambda>c. c \<noteq> []) cols)
   \<and> cells_loop html_parts cols
     = html_parts @ map (\<lambda>c. ''<td>'' @ format_inline c @ ''</td>'') cols
   \<and> header_cols ''| a | | b |'' = [''a'', [], ''b'']
   \<and> clean_cols ''| a | | b |'' = [''a'', [], ''b'']
   \<and> render_table [''| a | | b |'', ''| a | | b |'']
     = Inr ''<table><thead><tr><th>a</th><th>b</th></tr></thead><tbody><tr><td>a</td><td></td><td>b</td></tr></tbody></table>''"
proof -
  have "header_cols ''| a | | b |'' = [''a'', [], ''b'']" by code_simp
  moreover have "clean_cols ''| a | | b |'' = [''a'', [], ''b'']" by code_simp
  moreover have "render_table [''| a | | b |'', ''| a | | b |'']
     = Inr ''<table><thead><tr><th>a</th><th>b</th></tr></thead><tbody><tr><td>a</td><td></td><td>b</td></tr></tbody></table>''"
    by code_simp
  ultimately show ?thesis by (simp only: header_loop_eq cells_loop_eq simp_thms)
qed

end
